theory Spec2Isabelle
  imports Main
begin

section \<open>Data model\<close>

text \<open>
  The node \<^verbatim>\<open>PaperlessNgx\<close> (\<^verbatim>\<open>PaperlessNgx.node.ts\<close>) and its credential type
  \<^verbatim>\<open>PaperlessNgxApi\<close> run inside a workflow host. Everything the node reads from the
  host (input items, parameters, credentials, the continue-on-fail flag) and everything it
  asks the host to do (authenticated requests, binary streams) is collected in the record
  \<open>host\<close> below; the node's own code is translated function by function.
\<close>

datatype json =
    JNull
  | JBool bool
  | JNum int
  | JStr string
  | JArr "json list"
  | JObj "(string \<times> json) list"

text \<open>
  A thrown value. \<open>Thrown m ctx\<close> is an error object with message \<open>m\<close>; \<open>ctx = None\<close>
  means that it has no \<^verbatim>\<open>context\<close> property (a plain JavaScript \<^verbatim>\<open>TypeError\<close>),
  \<open>ctx = Some k\<close> that it has a context object whose \<^verbatim>\<open>itemIndex\<close> is \<open>k\<close>.
  \<open>NodeOperationError e i\<close> is \<^verbatim>\<open>new NodeOperationError(this.getNode(), e, { itemIndex: i })\<close>.
\<close>

datatype error =
    Thrown string "nat option option"
  | NodeOperationError error nat

datatype 'a outcome = Returned 'a | Raised error | OutOfFuel

datatype resource = Correspondent | DocumentType | Document

datatype operation = Create | Read | Update | Delete

record credentials =
  domain :: string
  token :: string

text \<open>\<^verbatim>\<open>IBinaryData\<close>: the fields of an attachment that the node reads.\<close>

record binary_data =
  data :: string
  mimeType :: string
  fileName :: "string option"
  binary_id :: "string option"

text \<open>
  \<^verbatim>\<open>INodeExecutionData\<close>: input items and output records have the same shape. The
  optional properties \<^verbatim>\<open>binary\<close>, \<^verbatim>\<open>error\<close> and \<^verbatim>\<open>pairedItem\<close> are options.
\<close>

record item =
  json :: json
  binary :: "(string \<times> binary_data) list option"
  error :: "error option"
  pairedItem :: "nat option"

text \<open>
  The upload payload: a stream obtained from the host by reference, or the buffer
  \<^verbatim>\<open>Buffer.from(data, BINARY_ENCODING)\<close>, kept as the encoded text it is made from.
\<close>

datatype upload_data = Stream string | Buffer string

record form_value =
  fd_value :: upload_data
  fd_filename :: "string option"
  fd_contentType :: string

text \<open>
  \<^verbatim>\<open>IRequestOptions\<close>; \<open>method_r\<close> is its property \<^verbatim>\<open>method\<close>. A query parameter whose
  value is \<^verbatim>\<open>undefined\<close> is \<open>None\<close>.
\<close>

record request =
  method_r :: string
  uri :: string
  headers :: "(string \<times> string) list"
  qs :: "(string \<times> string option) list"
  formData :: "(string \<times> form_value) list"
  json_flag :: bool

record additional_fields =
  search :: "string option"

text \<open>
  The host. \<open>getInputData\<close> is \<^verbatim>\<open>this.getInputData()\<close>, \<open>getInputData_at k\<close> is
  \<^verbatim>\<open>this.getInputData(k)\<close>; the \<open>param_\<close> fields are the calls of
  \<^verbatim>\<open>this.getNodeParameter\<close> for each parameter name. \<open>http sent r\<close> is the answer of
  the remote server to the request \<open>r\<close> after the requests \<open>sent\<close>: the parsed JSON body,
  or the error the transport raises (network failure, non-2xx status).
\<close>

record host =
  getInputData :: "item list"
  getInputData_at :: "nat \<Rightarrow> error + item list"
  getCredentials :: "error + credentials"
  param_resource :: "error + resource"
  param_operation :: "error + operation"
  param_additionalFields :: "nat \<Rightarrow> error + additional_fields"
  param_file :: "nat \<Rightarrow> error + string"
  getBinaryStream :: "string \<Rightarrow> error + string"
  continueOnFail :: bool
  http :: "request list \<Rightarrow> request \<Rightarrow> error + json"

section \<open>JSON access and JavaScript errors\<close>

definition TypeError :: error where
  "TypeError = Thrown ''TypeError'' None"

text \<open>Property access \<^verbatim>\<open>v[k]\<close>: \<open>None\<close> is \<^verbatim>\<open>undefined\<close>.\<close>

fun field :: "string \<Rightarrow> json \<Rightarrow> json option" where
  "field k (JObj fs) = map_of fs k"
| "field k v = None"

fun has_context :: "error \<Rightarrow> bool" where
  "has_context (Thrown m ctx) = (ctx \<noteq> None)"
| "has_context (NodeOperationError e i) = True"

fun set_itemIndex :: "error \<Rightarrow> nat \<Rightarrow> error" where
  "set_itemIndex (Thrown m ctx) i = Thrown m (Some (Some i))"
| "set_itemIndex (NodeOperationError e j) i = NodeOperationError e i"

fun error_itemIndex :: "error \<Rightarrow> nat option" where
  "error_itemIndex (Thrown m ctx) = (case ctx of None \<Rightarrow> None | Some k \<Rightarrow> k)"
| "error_itemIndex (NodeOperationError e i) = Some i"

section \<open>The credential type\<close>

text \<open>
  \<^verbatim>\<open>PaperlessNgxApi.authenticate\<close>: the generic authentication adds the header
  \<^verbatim>\<open>Authorization: '=Token {{$credentials.token}}'\<close>.
\<close>

definition authenticate :: "credentials \<Rightarrow> (string \<times> string) list" where
  "authenticate c = [(''Authorization'', ''Token '' @ token c)]"

text \<open>
  \<^verbatim>\<open>PaperlessNgxApi.test\<close>: \<^verbatim>\<open>baseURL\<close> is the domain and \<^verbatim>\<open>url\<close> is
  \<^verbatim>\<open>/api/documents/\<close>; no method is given, so the request is a GET.
\<close>

definition test_request :: "credentials \<Rightarrow> request" where
  "test_request c =
     \<lparr>method_r = ''GET'', uri = domain c @ ''/api/documents/'', headers = [], qs = [],
      formData = [], json_flag = False\<rparr>"

section \<open>Host helpers\<close>

text \<open>Assignment to a property of a JavaScript object: a key occurs once.\<close>

fun set_header :: "string \<Rightarrow> string \<Rightarrow> (string \<times> string) list \<Rightarrow> (string \<times> string) list" where
  "set_header k v [] = [(k, v)]"
| "set_header k v ((k', v') # hs) =
     (if k' = k then (k, v) # hs else (k', v') # set_header k v hs)"

text \<open>
  Modelled from the spec: the host's application of the credential type's
  \<^verbatim>\<open>authenticate\<close> declaration to a request is not part of the sources. The spec (4.1):
  "produce an authentication decorator that merges \<^verbatim>\<open>Authorization: Token <token>\<close>
  into outbound request headers".
\<close>

definition apply_authentication :: "credentials \<Rightarrow> request \<Rightarrow> request" where
  "apply_authentication c r =
     r\<lparr>headers := fold (\<lambda>(k, v). set_header k v) (authenticate c) (headers r)\<rparr>"

text \<open>
  Modelled from the spec: the host helper \<^verbatim>\<open>requestWithAuthentication\<close> is not part
  of the sources. It decorates the request with the credentials named
  \<^verbatim>\<open>paperlessNgxApi\<close> (the ones \<^verbatim>\<open>getCredentials\<close> returned), sends it, and
  returns the parsed body or raises the transport's error. The first component of the
  result is the list of requests sent so far.
\<close>

definition requestWithAuthentication ::
  "host \<Rightarrow> credentials \<Rightarrow> request list \<Rightarrow> request \<Rightarrow> request list \<times> (error + json)" where
  "requestWithAuthentication h c sent r =
     (let r' = apply_authentication c r in (sent @ [r'], http h sent r'))"

text \<open>
  The pagination options of the node (lines 173-179): the \<^verbatim>\<open>continue\<close> expression
  \<^verbatim>\<open>$response.body["next"] !== null\<close> and the \<^verbatim>\<open>request.url\<close> expression
  \<^verbatim>\<open>$response.body["next"]\<close>. No maximum number of requests is configured. The
  request interval (line 178) is a matter of time and has no counterpart here.
\<close>

definition pagination_continue :: "json \<Rightarrow> bool" where
  "pagination_continue body = (field ''next'' body \<noteq> Some JNull)"

definition pagination_url :: "json \<Rightarrow> json option" where
  "pagination_url body = field ''next'' body"

text \<open>
  Modelled from the spec: the request that follows a page. The spec (4.2): "issue the
  next request against that URL (ignoring the original query parameters - the server
  embeds them in \<^verbatim>\<open>next\<close>)".
\<close>

definition follow_up :: "request \<Rightarrow> string \<Rightarrow> request" where
  "follow_up r u = r\<lparr>uri := u, qs := []\<rparr>"

text \<open>
  Modelled from the spec: the host helper \<^verbatim>\<open>requestWithAuthenticationPaginated\<close> is
  not part of the sources. The spec (4.2): "after each response, if \<^verbatim>\<open>body.next\<close> is a
  non-null value, issue the next request against that URL; if \<^verbatim>\<open>body.next\<close> is null,
  stop", driven here by the two expressions the node configures. A \<^verbatim>\<open>next\<close> that is
  neither null nor a string names no URL and the follow-up request cannot be made. The loop
  has no bound of its own, so the model takes fuel: one unit per request.
\<close>

fun requestWithAuthenticationPaginated ::
  "nat \<Rightarrow> host \<Rightarrow> credentials \<Rightarrow> request list \<Rightarrow> request \<Rightarrow> request list \<times> json list outcome" where
  "requestWithAuthenticationPaginated 0 h c sent r = (sent, OutOfFuel)"
| "requestWithAuthenticationPaginated (Suc n) h c sent r =
     (let (sent', response) = requestWithAuthentication h c sent r in
      case response of
        Inl e \<Rightarrow> (sent', Raised e)
      | Inr body \<Rightarrow>
          if pagination_continue body then
            (case pagination_url body of
               Some (JStr u) \<Rightarrow>
                 (let (sent'', rest) =
                        requestWithAuthenticationPaginated n h c sent' (follow_up r u) in
                  case rest of
                    Returned bodies \<Rightarrow> (sent'', Returned (body # bodies))
                  | Raised e \<Rightarrow> (sent'', Raised e)
                  | OutOfFuel \<Rightarrow> (sent'', OutOfFuel))
             | _ \<Rightarrow> (sent', Raised (Thrown ''Invalid URL'' None)))
          else (sent', Returned [body]))"

text \<open>
  Modelled from the spec: the missing-binary error of section 7, which the host helper
  raises with the index of the item in its context.
\<close>

definition missing_binary_error :: "nat \<Rightarrow> string \<Rightarrow> error" where
  "missing_binary_error i name = Thrown (''No binary data: '' @ name) (Some (Some i))"

text \<open>
  Modelled from the spec: the host helper \<^verbatim>\<open>assertBinaryData\<close> is not part of the
  sources. The spec (4.2, 7): "Fail if no such binary payload exists on the item";
  "Missing-binary error: Create requested but no attachment under the configured field
  name". The host reads the item from the run's input list, which is the array the node
  holds in \<^verbatim>\<open>items\<close>.
\<close>

definition assertBinaryData :: "item list \<Rightarrow> nat \<Rightarrow> string \<Rightarrow> error + binary_data" where
  "assertBinaryData items i name =
     (if i < length items then
        (case binary (items ! i) of
           None \<Rightarrow> Inl (missing_binary_error i name)
         | Some bs \<Rightarrow>
             (case map_of bs name of
                None \<Rightarrow> Inl (missing_binary_error i name)
              | Some b \<Rightarrow> Inr b))
      else Inl (missing_binary_error i name))"

section \<open>The node: Document / Read\<close>

text \<open>Lines 161-171.\<close>

definition read_request :: "credentials \<Rightarrow> additional_fields \<Rightarrow> request" where
  "read_request c additionalFields =
     \<lparr>method_r = ''GET'', uri = domain c @ ''/api/documents/'',
      headers = [(''Accept'', ''application/json'')],
      qs = [(''search'', search additionalFields)],
      formData = [], json_flag = True\<rparr>"

definition out_json :: "json \<Rightarrow> item" where
  "out_json v = \<lparr>json = v, binary = None, error = None, pairedItem = None\<rparr>"

text \<open>
  Line 189, \<^verbatim>\<open>response.body.results.map(...)\<close>: whenever \<^verbatim>\<open>results\<close> is not an array
  the call raises a \<^verbatim>\<open>TypeError\<close>.
\<close>

definition results_of :: "json \<Rightarrow> error + json list" where
  "results_of body =
     (case field ''results'' body of
        Some (JArr rs) \<Rightarrow> Inr rs
      | _ \<Rightarrow> Inl TypeError)"

text \<open>Lines 188-190, the \<^verbatim>\<open>flatMap\<close> over the responses.\<close>

fun flatMap_results :: "json list \<Rightarrow> error + item list" where
  "flatMap_results [] = Inr []"
| "flatMap_results (body # bodies) =
     (case results_of body of
        Inl e \<Rightarrow> Inl e
      | Inr rs \<Rightarrow>
          (case flatMap_results bodies of
             Inl e \<Rightarrow> Inl e
           | Inr its \<Rightarrow> Inr (map out_json rs @ its)))"

text \<open>
  Lines 156-191. The result is the requests sent so far and the records that line 191
  pushes on \<^verbatim>\<open>returnData\<close>.
\<close>

definition document_read ::
  "nat \<Rightarrow> host \<Rightarrow> credentials \<Rightarrow> nat \<Rightarrow> request list \<Rightarrow> request list \<times> item list outcome" where
  "document_read n h c itemIndex sent =
     (case param_additionalFields h itemIndex of
        Inl e \<Rightarrow> (sent, Raised e)
      | Inr additionalFields \<Rightarrow>
          (let (sent', responseData) =
                 requestWithAuthenticationPaginated n h c sent (read_request c additionalFields) in
           case responseData of
             Returned bodies \<Rightarrow>
               (case flatMap_results bodies of
                  Inl e \<Rightarrow> (sent', Raised e)
                | Inr its \<Rightarrow> (sent', Returned its))
           | Raised e \<Rightarrow> (sent', Raised e)
           | OutOfFuel \<Rightarrow> (sent', OutOfFuel)))"

section \<open>The node: Document / Create\<close>

text \<open>
  Line 198, \<^verbatim>\<open>items[itemIndex].binary![documentFieldName]\<close>, and the read of its
  \<^verbatim>\<open>id\<close> in line 201: without a \<^verbatim>\<open>binary\<close> property, or without an entry under
  the name, a \<^verbatim>\<open>TypeError\<close> is raised.
\<close>

definition documentBinaryData_of :: "item list \<Rightarrow> nat \<Rightarrow> string \<Rightarrow> error + binary_data" where
  "documentBinaryData_of items i name =
     (if i < length items then
        (case binary (items ! i) of
           None \<Rightarrow> Inl TypeError
         | Some bs \<Rightarrow> (case map_of bs name of None \<Rightarrow> Inl TypeError | Some b \<Rightarrow> Inr b))
      else Inl TypeError)"

text \<open>Lines 199-205: a non-empty \<^verbatim>\<open>id\<close> is truthy.\<close>

definition documentUploadData_of :: "host \<Rightarrow> binary_data \<Rightarrow> error + upload_data" where
  "documentUploadData_of h b =
     (case binary_id b of
        None \<Rightarrow> Inr (Buffer (data b))
      | Some s \<Rightarrow>
          if s \<noteq> [] then
            (case getBinaryStream h s of Inl e \<Rightarrow> Inl e | Inr st \<Rightarrow> Inr (Stream st))
          else Inr (Buffer (data b)))"

text \<open>Lines 207-220.\<close>

definition create_request :: "credentials \<Rightarrow> binary_data \<Rightarrow> upload_data \<Rightarrow> request" where
  "create_request c documentData documentUploadData =
     \<lparr>method_r = ''POST'', uri = domain c @ ''/api/documents/post_document/'',
      headers = [], qs = [],
      formData =
        [(''document'',
          \<lparr>fd_value = documentUploadData, fd_filename = fileName documentData,
           fd_contentType = mimeType documentData\<rparr>)],
      json_flag = True\<rparr>"

text \<open>Lines 196-229.\<close>

definition document_create ::
  "host \<Rightarrow> credentials \<Rightarrow> nat \<Rightarrow> item list \<Rightarrow> request list \<Rightarrow> request list \<times> item list outcome" where
  "document_create h c itemIndex items sent =
     (case param_file h itemIndex of
        Inl e \<Rightarrow> (sent, Raised e)
      | Inr documentFieldName \<Rightarrow>
     (case assertBinaryData items itemIndex documentFieldName of
        Inl e \<Rightarrow> (sent, Raised e)
      | Inr documentData \<Rightarrow>
     (case documentBinaryData_of items itemIndex documentFieldName of
        Inl e \<Rightarrow> (sent, Raised e)
      | Inr documentBinaryData \<Rightarrow>
     (case documentUploadData_of h documentBinaryData of
        Inl e \<Rightarrow> (sent, Raised e)
      | Inr documentUploadData \<Rightarrow>
          (let (sent', responseData) =
                 requestWithAuthentication h c sent
                   (create_request c documentData documentUploadData) in
           case responseData of
             Inl e \<Rightarrow> (sent', Raised e)
           | Inr v \<Rightarrow> (sent', Returned [out_json (JObj [(''task_id'', v)])]))))))"

section \<open>The node: the loop over the items\<close>

text \<open>
  The \<^verbatim>\<open>try\<close> block, lines 154-231. The two tests of \<open>operation\<close> (lines 155 and 194)
  follow each other in the source; the value tested is the same, so at most one of the
  two bodies runs.
\<close>

definition execute_item ::
  "nat \<Rightarrow> host \<Rightarrow> credentials \<Rightarrow> resource \<Rightarrow> operation \<Rightarrow> nat \<Rightarrow> item list \<Rightarrow> request list
     \<Rightarrow> request list \<times> item list outcome" where
  "execute_item n h c resource operation itemIndex items sent =
     (if resource = Document then
        (if operation = Read then document_read n h c itemIndex sent
         else if operation = Create then document_create h c itemIndex items sent
         else (sent, Returned []))
      else (sent, Returned []))"

text \<open>
  Line 234, \<^verbatim>\<open>this.getInputData(itemIndex)[0].json\<close>: the lookup raises when the host
  raises, and when the list it returns is empty.
\<close>

definition first_json :: "error + item list \<Rightarrow> error + json" where
  "first_json r =
     (case r of
        Inl e \<Rightarrow> Inl e
      | Inr [] \<Rightarrow> Inl TypeError
      | Inr (x # xs) \<Rightarrow> Inr (json x))"

text \<open>Lines 236-243.\<close>

definition rethrow :: "error \<Rightarrow> nat \<Rightarrow> error" where
  "rethrow e itemIndex =
     (if has_context e then set_itemIndex e itemIndex else NodeOperationError e itemIndex)"

text \<open>
  Lines 152-246. \<open>items\<close> is the array that line 234 pushes on and whose length line 152
  reads at every iteration; \<open>returnData\<close> is the array that is returned. The fuel bounds
  the number of iterations, and each item's pagination gets the fuel that is left.
\<close>

fun execute_loop ::
  "nat \<Rightarrow> host \<Rightarrow> credentials \<Rightarrow> resource \<Rightarrow> operation \<Rightarrow> nat \<Rightarrow> item list \<Rightarrow> item list
     \<Rightarrow> request list \<Rightarrow> request list \<times> item list outcome" where
  "execute_loop 0 h c resource operation itemIndex items returnData sent =
     (if itemIndex < length items then (sent, OutOfFuel) else (sent, Returned returnData))"
| "execute_loop (Suc n) h c resource operation itemIndex items returnData sent =
     (if itemIndex < length items then
        (let (sent', r) = execute_item (Suc n) h c resource operation itemIndex items sent in
         case r of
           Returned new \<Rightarrow>
             execute_loop n h c resource operation (Suc itemIndex) items (returnData @ new) sent'
         | OutOfFuel \<Rightarrow> (sent', OutOfFuel)
         | Raised e \<Rightarrow>
             if continueOnFail h then
               (case first_json (getInputData_at h itemIndex) of
                  Inl e' \<Rightarrow> (sent', Raised e')
                | Inr j \<Rightarrow>
                    execute_loop n h c resource operation (Suc itemIndex)
                      (items @ [\<lparr>json = j, binary = None, error = Some e,
                                 pairedItem = Some itemIndex\<rparr>])
                      returnData sent')
             else (sent', Raised (rethrow e itemIndex)))
      else (sent, Returned returnData))"

text \<open>
  \<^verbatim>\<open>PaperlessNgx.execute\<close>, lines 142-249. The result is the list of requests sent and
  either the records handed to \<^verbatim>\<open>prepareOutputData\<close> (\<open>Returned\<close>), or the error that
  leaves \<^verbatim>\<open>execute\<close> (\<open>Raised\<close>), or \<open>OutOfFuel\<close> when the run is not over after the
  iterations granted.
\<close>

definition execute :: "nat \<Rightarrow> host \<Rightarrow> request list \<times> item list outcome" where
  "execute n h =
     (let items = getInputData h in
      case getCredentials h of
        Inl e \<Rightarrow> ([], Raised e)
      | Inr credentials \<Rightarrow>
     (case param_resource h of
        Inl e \<Rightarrow> ([], Raised e)
      | Inr resource \<Rightarrow>
     (case param_operation h of
        Inl e \<Rightarrow> ([], Raised e)
      | Inr operation \<Rightarrow>
          execute_loop n h credentials resource operation 0 items [] [])))"

section \<open>Notions used in the statements\<close>

text \<open>
  An item on which Document / Create cannot succeed: the \<^verbatim>\<open>file\<close> parameter cannot
  be resolved, or the item has no attachment under the name it resolves to.
\<close>

definition create_fails :: "host \<Rightarrow> item list \<Rightarrow> nat \<Rightarrow> bool" where
  "create_fails h items k =
     (k < length items \<and>
      (case param_file h k of
         Inl e \<Rightarrow> True
       | Inr name \<Rightarrow>
           (case binary (items ! k) of None \<Rightarrow> True | Some bs \<Rightarrow> map_of bs name = None)))"

text \<open>
  The requests of a paginated read that follows the URLs \<open>urls\<close> one after the other,
  as they leave the host.
\<close>

definition page_requests :: "credentials \<Rightarrow> request \<Rightarrow> string list \<Rightarrow> request list" where
  "page_requests c r urls = map (apply_authentication c) (r # map (follow_up r) urls)"




text \<open>Header names are compared without regard to letter case.\<close>

definition lower_char :: "char \<Rightarrow> char" where
  "lower_char ch =
     (case map_of (zip ''ABCDEFGHIJKLMNOPQRSTUVWXYZ'' ''abcdefghijklmnopqrstuvwxyz'') ch of
        None \<Rightarrow> ch
      | Some l \<Rightarrow> l)"

definition authorization_headers :: "request \<Rightarrow> (string \<times> string) list" where
  "authorization_headers r =
     filter (\<lambda>(k, v). map lower_char k = ''authorization'') (headers r)"

definition authenticated :: "credentials \<Rightarrow> request \<Rightarrow> bool" where
  "authenticated c r = (authorization_headers r = [(''Authorization'', ''Token '' @ token c)])"

section \<open>Example runs\<close>

definition example_credentials :: credentials where
  "example_credentials = \<lparr>domain = ''https://dms.example'', token = ''abc123''\<rparr>"

definition example_file :: binary_data where
  "example_file =
     \<lparr>data = ''JVBERi0='', mimeType = ''application/pdf'', fileName = Some ''scan.pdf'',
      binary_id = None\<rparr>"

definition item_with_file :: item where
  "item_with_file =
     \<lparr>json = JObj [], binary = Some [(''data'', example_file)], error = None,
      pairedItem = None\<rparr>"

definition item_without_file :: item where
  "item_without_file = \<lparr>json = JObj [], binary = None, error = None, pairedItem = None\<rparr>"

definition three_items :: "item list" where
  "three_items = [item_with_file, item_without_file, item_with_file]"

text \<open>
  A host running Document / \<open>op\<close> on the items \<open>its\<close> against the server \<open>srv\<close>. Its
  \<^verbatim>\<open>getInputData(k)\<close> returns \<open>its\<close> for every \<open>k\<close>.
\<close>

definition example_host ::
  "operation \<Rightarrow> bool \<Rightarrow> item list \<Rightarrow> (request list \<Rightarrow> request \<Rightarrow> error + json) \<Rightarrow> host" where
  "example_host op cont its srv =
     \<lparr>getInputData = its, getInputData_at = (\<lambda>k. Inr its),
      getCredentials = Inr example_credentials,
      param_resource = Inr Document, param_operation = Inr op,
      param_additionalFields = (\<lambda>i. Inr \<lparr>search = Some ''invoice''\<rparr>),
      param_file = (\<lambda>i. Inr ''data''),
      getBinaryStream = (\<lambda>s. Inl (Thrown ''no stream'' None)),
      continueOnFail = cont, http = srv\<rparr>"

text \<open>The same host with a single input: only \<^verbatim>\<open>getInputData(0)\<close> has items.\<close>

definition single_input_host ::
  "operation \<Rightarrow> bool \<Rightarrow> item list \<Rightarrow> (request list \<Rightarrow> request \<Rightarrow> error + json) \<Rightarrow> host" where
  "single_input_host op cont its srv =
     (example_host op cont its srv)
       \<lparr>getInputData_at := (\<lambda>k. if k = 0 then Inr its else Inr [])\<rparr>"

definition upload_server :: "request list \<Rightarrow> request \<Rightarrow> error + json" where
  "upload_server sent r = Inr (JStr ''task-1'')"

definition upload_request :: request where
  "upload_request =
     apply_authentication example_credentials
       (create_request example_credentials example_file (Buffer ''JVBERi0=''))"

definition page_one :: json where
  "page_one =
     JObj [(''results'', JArr [JNum 1, JNum 2]),
           (''next'', JStr ''https://dms.example/api/documents/?page=2'')]"

definition page_two :: json where
  "page_two = JObj [(''results'', JArr [JNum 3]), (''next'', JNull)]"

definition two_page_server :: "request list \<Rightarrow> request \<Rightarrow> error + json" where
  "two_page_server sent r =
     (if uri r = ''https://dms.example/api/documents/?page=2'' then Inr page_two
      else Inr page_one)"

definition endless_server :: "request list \<Rightarrow> request \<Rightarrow> error + json" where
  "endless_server sent r = Inr page_one"

text \<open>An attachment that the host keeps by reference, and a host that can stream it.\<close>

definition stored_file :: binary_data where
  "stored_file =
     \<lparr>data = ''filesystem-v2'', mimeType = ''image/png'', fileName = Some ''photo.png'',
      binary_id = Some ''filesystem-v2:42''\<rparr>"

definition item_with_stored_file :: item where
  "item_with_stored_file =
     \<lparr>json = JObj [], binary = Some [(''data'', stored_file)], error = None,
      pairedItem = None\<rparr>"

definition stream_host :: host where
  "stream_host =
     (example_host Create False [item_with_stored_file] upload_server)
       \<lparr>getBinaryStream := (\<lambda>s. Inr (''stream of '' @ s))\<rparr>"

text \<open>
  A host whose additional fields hold the search value \<open>s\<close>, and a server that takes an
  empty \<^verbatim>\<open>search\<close> value as a filter that no document passes.
\<close>

definition search_host ::
  "string option \<Rightarrow> (request list \<Rightarrow> request \<Rightarrow> error + json) \<Rightarrow> host" where
  "search_host s srv =
     (example_host Read False [item_without_file] srv)
       \<lparr>param_additionalFields := (\<lambda>i. Inr \<lparr>search = s\<rparr>)\<rparr>"

definition literal_filter_server :: "request list \<Rightarrow> request \<Rightarrow> error + json" where
  "literal_filter_server sent r =
     (if map_of (qs r) ''search'' = Some (Some [])
      then Inr (JObj [(''results'', JArr []), (''next'', JNull)])
      else Inr page_two)"

section \<open>Unfolding the model on concrete runs\<close>

lemmas run_defs =
  execute_def execute_item_def document_read_def document_create_def assertBinaryData_def
  documentBinaryData_of_def documentUploadData_of_def requestWithAuthentication_def
  apply_authentication_def authenticate_def create_request_def read_request_def
  first_json_def rethrow_def missing_binary_error_def TypeError_def out_json_def
  pagination_continue_def pagination_url_def follow_up_def results_of_def

lemmas example_defs =
  example_host_def single_input_host_def example_credentials_def example_file_def
  item_with_file_def item_without_file_def three_items_def upload_server_def
  upload_request_def page_one_def page_two_def two_page_server_def endless_server_def
  stored_file_def item_with_stored_file_def stream_host_def search_host_def
  literal_filter_server_def

section \<open>Create: presence and absence of the attachment\<close>

lemma create_fails_raises:
  "create_fails h items k \<Longrightarrow>
   \<exists>e. execute_item n h c Document Create k items sent = (sent, Raised e)"
  by (auto simp: create_fails_def execute_item_def document_create_def assertBinaryData_def
       split: sum.splits option.splits)

lemma create_fails_append: "create_fails h items k \<Longrightarrow> create_fails h (items @ [x]) k"
  by (auto simp: create_fails_def nth_append split: sum.splits option.splits)

lemma create_fails_pushed: "binary x = None \<Longrightarrow> create_fails h (items @ [x]) (length items)"
  by (auto simp: create_fails_def split: sum.splits)



text \<open>
  Claim C4. Document / Create on an item that has no attachment under the configured
  field name raises the missing-binary error, and the requests sent are the ones sent
  before: no request is made for the item.
\<close>

theorem C4_create_without_attachment_sends_nothing:
  assumes "i < length items"
    and "param_file h i = Inr name"
    and "binary (items ! i) = None
         \<or> (\<exists>bs. binary (items ! i) = Some bs \<and> map_of bs name = None)"
  shows "execute_item n h c Document Create i items sent
           = (sent, Raised (missing_binary_error i name))"
  using assms
  by (auto simp: execute_item_def document_create_def assertBinaryData_def)

theorem C4_create_without_attachment_sends_nothing_witness:
  "1 < length three_items
   \<and> param_file (example_host Create False three_items upload_server) 1 = Inr ''data''
   \<and> binary (three_items ! 1) = None
   \<and> execute_item 1 (example_host Create False three_items upload_server) example_credentials
        Document Create 1 three_items [upload_request]
      = ([upload_request], Raised (missing_binary_error 1 ''data''))"
proof -
  let ?h = "example_host Create False three_items upload_server"
  have 1: "1 < length three_items" by (simp add: three_items_def)
  have 2: "param_file ?h 1 = Inr ''data''" by (simp add: example_host_def)
  have 3: "binary (three_items ! 1) = None"
    by (simp add: three_items_def item_without_file_def)
  from 3 have 4: "binary (three_items ! 1) = None
      \<or> (\<exists>bs. binary (three_items ! 1) = Some bs \<and> map_of bs ''data'' = None)" by simp
  show ?thesis
    using C4_create_without_attachment_sends_nothing [OF 1 2 4, of 1 example_credentials "[upload_request]"] 1 2 3
    by simp
qed

section \<open>Combinations without behaviour\<close>

lemma inert_loop:
  assumes "resource \<noteq> Document \<or> operation = Update \<or> operation = Delete"
  shows "length items - i \<le> n \<Longrightarrow>
         execute_loop n h c resource operation i items rd sent = (sent, Returned rd)"
proof (induction n arbitrary: i rd)
  case 0
  then show ?case by simp
next
  case (Suc n)
  have "execute_item (Suc n) h c resource operation i items sent = (sent, Returned [])"
    using assms by (auto simp: execute_item_def)
  then show ?case using Suc by simp
qed

text \<open>
  Claim C8. When the resource is Correspondent or DocumentType (with any operation), or
  the operation is Update or Delete, no item sends a request or produces a record: the
  \<^verbatim>\<open>try\<close> block leaves the requests sent unchanged and adds nothing to
  \<^verbatim>\<open>returnData\<close>, and the whole run sends nothing and returns no record.
\<close>

theorem C8_inert_combinations_have_no_effect:
  assumes "getCredentials h = Inr c"
    and "param_resource h = Inr res"
    and "param_operation h = Inr op"
    and "res = Correspondent \<or> res = DocumentType \<or> op = Update \<or> op = Delete"
    and "length (getInputData h) \<le> n"
  shows "execute_item m h c res op i items sent = (sent, Returned [])
         \<and> execute n h = ([], Returned [])"
proof -
  from assms(4) have inert: "res \<noteq> Document \<or> op = Update \<or> op = Delete" by auto
  then have "execute_item m h c res op i items sent = (sent, Returned [])"
    by (auto simp: execute_item_def)
  moreover have "execute_loop n h c res op 0 (getInputData h) [] [] = ([], Returned [])"
    using inert_loop [OF inert, of "getInputData h" 0 n] assms(5) by simp
  ultimately show ?thesis using assms(1-3) by (simp add: execute_def)
qed

theorem C8_inert_combinations_have_no_effect_witness:
  "getCredentials (example_host Delete False three_items upload_server) = Inr example_credentials
   \<and> param_resource (example_host Delete False three_items upload_server) = Inr Document
   \<and> param_operation (example_host Delete False three_items upload_server) = Inr Delete
   \<and> length (getInputData (example_host Delete False three_items upload_server)) \<le> 3
   \<and> execute_item 3 (example_host Delete False three_items upload_server) example_credentials
        Document Delete 0 three_items [] = ([], Returned [])
   \<and> execute 3 (example_host Delete False three_items upload_server) = ([], Returned [])"
proof -
  let ?h = "example_host Delete False three_items upload_server"
  have 1: "getCredentials ?h = Inr example_credentials" by (simp add: example_host_def)
  have 2: "param_resource ?h = Inr Document" by (simp add: example_host_def)
  have 3: "param_operation ?h = Inr Delete" by (simp add: example_host_def)
  have 4: "Document = Correspondent \<or> Document = DocumentType \<or> Delete = Update \<or> Delete = Delete"
    by simp
  have 5: "length (getInputData ?h) \<le> 3" by (simp add: example_host_def three_items_def)
  show ?thesis
    using C8_inert_combinations_have_no_effect [OF 1 2 3 4 5, of 3 0 three_items "[]"] 1 2 3 5
    by simp
qed

section \<open>Abort mode\<close>

lemma rethrow_index: "error_itemIndex (rethrow e i) = Some i"
  by (cases e) (auto simp: rethrow_def)

lemma abort_loop_raised:
  "\<not> continueOnFail h \<Longrightarrow>
   execute_loop n h c res op i items rd sent = (sent', Raised e) \<Longrightarrow>
   \<exists>k < length items. error_itemIndex e = Some k"
proof (induction n arbitrary: i rd sent)
  case 0
  then show ?case by (auto split: if_splits)
next
  case (Suc n)
  obtain s x where step: "execute_item (Suc n) h c res op i items sent = (s, x)"
    by (cases "execute_item (Suc n) h c res op i items sent")
  show ?case
  proof (cases "i < length items")
    case False
    with Suc.prems show ?thesis by simp
  next
    case True
    show ?thesis
    proof (cases x)
      case (Returned new)
      then have "execute_loop n h c res op (Suc i) items (rd @ new) s = (sent', Raised e)"
        using Suc.prems(2) True step by simp
      from Suc.IH [OF Suc.prems(1) this] show ?thesis .
    next
      case (Raised e0)
      then have "e = rethrow e0 i" using Suc.prems True step by simp
      then show ?thesis using True rethrow_index by auto
    next
      case OutOfFuel
      then show ?thesis using Suc.prems(2) True step by simp
    qed
  qed
qed

text \<open>
  Claim C5. In abort mode, when the processing of item \<open>i\<close> fails, the loop stops there:
  the error leaves \<^verbatim>\<open>execute\<close> with \<open>i\<close> attached as its item index, the requests sent
  are those sent up to the failure (no later item is processed), and no record is
  returned. Hence every error that leaves the loop of a run in abort mode carries the
  index of one of the input items.
\<close>

theorem C5_abort_mode_raises_at_first_failure:
  assumes "\<not> continueOnFail h"
    and "i < length items"
    and "execute_item (Suc n) h c res op i items sent = (sent', Raised e)"
  shows "execute_loop (Suc n) h c res op i items returnData sent
           = (sent', Raised (rethrow e i))
         \<and> error_itemIndex (rethrow e i) = Some i
         \<and> (\<forall>m c' res' op' s e'.
               getCredentials h = Inr c' \<and> param_resource h = Inr res'
               \<and> param_operation h = Inr op' \<and> execute m h = (s, Raised e')
               \<longrightarrow> (\<exists>k < length (getInputData h). error_itemIndex e' = Some k))"
proof -
  have "\<exists>k < length (getInputData h). error_itemIndex e' = Some k"
    if "getCredentials h = Inr c'" "param_resource h = Inr res'" "param_operation h = Inr op'"
      "execute m h = (s, Raised e')"
    for m c' res' op' s e'
    using that abort_loop_raised [OF assms(1)] by (auto simp: execute_def)
  then have "\<forall>m c' res' op' s e'.
      getCredentials h = Inr c' \<and> param_resource h = Inr res'
      \<and> param_operation h = Inr op' \<and> execute m h = (s, Raised e')
      \<longrightarrow> (\<exists>k < length (getInputData h). error_itemIndex e' = Some k)"
    by blast
  moreover have "execute_loop (Suc n) h c res op i items returnData sent
                   = (sent', Raised (rethrow e i))"
    using assms by simp
  moreover have "error_itemIndex (rethrow e i) = Some i" by (rule rethrow_index)
  ultimately show ?thesis by blast
qed

theorem C5_abort_mode_raises_at_first_failure_witness:
  "\<not> continueOnFail (example_host Create False three_items upload_server)
   \<and> 1 < length three_items
   \<and> execute_loop (Suc 1) (example_host Create False three_items upload_server)
        example_credentials Document Create 1 three_items
        [out_json (JObj [(''task_id'', JStr ''task-1'')])]
        [upload_request]
      = ([upload_request], Raised (Thrown ''No binary data: data'' (Some (Some 1))))
   \<and> execute 3 (example_host Create False three_items upload_server)
      = ([upload_request], Raised (Thrown ''No binary data: data'' (Some (Some 1))))
   \<and> (\<exists>k < length (getInputData (example_host Create False three_items upload_server)).
         error_itemIndex (Thrown ''No binary data: data'' (Some (Some 1))) = Some k)"
proof -
  let ?h = "example_host Create False three_items upload_server"
  let ?e = "missing_binary_error 1 ''data''"
  have 1: "\<not> continueOnFail ?h" by (simp add: example_host_def)
  have 2: "1 < length three_items" by (simp add: three_items_def)
  have 3: "execute_item (Suc 1) ?h example_credentials Document Create 1 three_items
             [upload_request] = ([upload_request], Raised ?e)"
    by (simp add: execute_item_def document_create_def assertBinaryData_def example_host_def
          three_items_def item_without_file_def)
  have 4: "rethrow ?e 1 = Thrown ''No binary data: data'' (Some (Some 1))"
    by (simp add: rethrow_def missing_binary_error_def)
  have 5: "getCredentials ?h = Inr example_credentials \<and> param_resource ?h = Inr Document
           \<and> param_operation ?h = Inr Create"
    by (simp add: example_host_def)
  note inst = C5_abort_mode_raises_at_first_failure [OF 1 2 3, unfolded 4]
  from inst have step: "execute_loop (Suc 1) ?h example_credentials Document Create 1 three_items
                [out_json (JObj [(''task_id'', JStr ''task-1'')])] [upload_request]
              = ([upload_request], Raised (Thrown ''No binary data: data'' (Some (Some 1))))"
    by blast
  have run: "execute 3 ?h
               = ([upload_request], Raised (Thrown ''No binary data: data'' (Some (Some 1))))"
    by (simp add: run_defs example_defs eval_nat_numeral)
  from inst 5 run have index: "\<exists>k < length (getInputData ?h).
      error_itemIndex (Thrown ''No binary data: data'' (Some (Some 1))) = Some k"
    by blast
  show ?thesis using step run index 1 2 by blast
qed

section \<open>Continue mode\<close>

lemma create_loop_diverges:
  assumes cont: "continueOnFail h"
    and lookup: "\<And>i. \<exists>j. first_json (getInputData_at h i) = Inr j"
  shows "\<exists>k. i \<le> k \<and> create_fails h items k \<Longrightarrow>
         \<exists>sent'. execute_loop n h c Document Create i items rd sent = (sent', OutOfFuel)"
proof (induction n arbitrary: i items rd sent)
  case 0
  then show ?case by (auto simp: create_fails_def)
next
  case (Suc n)
  from Suc.prems obtain k where k: "i \<le> k" "create_fails h items k" by blast
  then have lt: "i < length items" by (simp add: create_fails_def)
  obtain sent' r where step: "execute_item (Suc n) h c Document Create i items sent = (sent', r)"
    by (cases "execute_item (Suc n) h c Document Create i items sent")
  show ?case
  proof (cases r)
    case (Returned new)
    have "k \<noteq> i"
      using create_fails_raises [OF k(2), of "Suc n" c sent] step Returned by auto
    with k have "\<exists>k. Suc i \<le> k \<and> create_fails h items k"
      by (intro exI [of _ k]) simp
    from Suc.IH [OF this] show ?thesis using lt step Returned by simp
  next
    case (Raised e)
    obtain j where j: "first_json (getInputData_at h i) = Inr j" using lookup by blast
    let ?x = "\<lparr>json = j, binary = None, error = Some e, pairedItem = Some i\<rparr>"
    have "\<exists>k. Suc i \<le> k \<and> create_fails h (items @ [?x]) k"
    proof (cases "k = i")
      case True
      have "create_fails h (items @ [?x]) (length items)"
        by (rule create_fails_pushed) simp
      with lt show ?thesis by (intro exI [of _ "length items"]) simp
    next
      case False
      with k show ?thesis by (intro exI [of _ k]) (simp add: create_fails_append)
    qed
    from Suc.IH [OF this] show ?thesis using lt step Raised cont j by simp
  next
    case OutOfFuel
    then show ?thesis using lt step by simp
  qed
qed

lemma create_run_diverges:
  assumes "getCredentials h = Inr c"
    and "param_resource h = Inr Document"
    and "param_operation h = Inr Create"
    and "continueOnFail h"
    and "\<And>i. \<exists>j. first_json (getInputData_at h i) = Inr j"
    and "create_fails h (getInputData h) k"
  shows "snd (execute n h) = OutOfFuel"
proof -
  have "\<exists>k. 0 \<le> k \<and> create_fails h (getInputData h) k" using assms(6) by blast
  from create_loop_diverges [OF assms(4) assms(5) this, of n c "[]" "[]"]
  show ?thesis using assms(1-3) by (auto simp: execute_def)
qed

lemma flatMap_results_no_error:
  "flatMap_results bodies = Inr its \<Longrightarrow> list_all (\<lambda>r. error r = None) its"
proof (induction bodies arbitrary: its)
  case Nil
  then show ?case by simp
next
  case (Cons b bodies)
  then show ?case
    by (auto simp: out_json_def list_all_iff split: sum.splits)
qed

lemma execute_item_no_error:
  "execute_item n h c res op i items sent = (sent', Returned new) \<Longrightarrow>
   list_all (\<lambda>r. error r = None) new"
  by (auto simp: execute_item_def document_read_def document_create_def out_json_def
         requestWithAuthentication_def Let_def
       split: if_splits sum.splits prod.splits outcome.splits
       dest: flatMap_results_no_error)

lemma execute_loop_no_error:
  "execute_loop n h c res op i items rd sent = (sent', Returned rd') \<Longrightarrow>
   list_all (\<lambda>r. error r = None) rd \<Longrightarrow> list_all (\<lambda>r. error r = None) rd'"
proof (induction n arbitrary: i items rd sent)
  case 0
  then show ?case by (auto split: if_splits)
next
  case (Suc n)
  obtain s x where step: "execute_item (Suc n) h c res op i items sent = (s, x)"
    by (cases "execute_item (Suc n) h c res op i items sent")
  show ?case
  proof (cases "i < length items")
    case False
    with Suc.prems show ?thesis by simp
  next
    case True
    show ?thesis
    proof (cases x)
      case (Returned new)
      then have "list_all (\<lambda>r. error r = None) (rd @ new)"
        using execute_item_no_error [OF step [unfolded Returned]] Suc.prems(2) by simp
      moreover have "execute_loop n h c res op (Suc i) items (rd @ new) s = (sent', Returned rd')"
        using Suc.prems(1) True step Returned by simp
      ultimately show ?thesis by (rule Suc.IH [rotated])
    next
      case (Raised e)
      then show ?thesis
        using Suc.prems True step Suc.IH
        by (auto split: if_splits sum.splits)
    next
      case OutOfFuel
      then show ?thesis using Suc.prems(1) True step by simp
    qed
  qed
qed

lemma execute_no_error:
  "execute n h = (sent, Returned rd) \<Longrightarrow> list_all (\<lambda>r. error r = None) rd"
  by (auto simp: execute_def split: sum.splits dest: execute_loop_no_error)

text \<open>
  Claim C1. The claim expects the returned sequence of a run in continue mode to hold an
  error record for each failed item. No run returns one: every record that
  \<^verbatim>\<open>execute\<close> returns has no \<^verbatim>\<open>error\<close>, since line 234 pushes the error record on
  \<^verbatim>\<open>items\<close>, not on \<^verbatim>\<open>returnData\<close>. On the claim's own scenario (three items, the
  second without attachment, Document / Create, continue mode), with a host whose
  \<^verbatim>\<open>getInputData(itemIndex)\<close> always has items, the run returns nothing, whatever the
  number of iterations granted; after three iterations the uploads of the first and third
  item have been sent and the loop is still not done. With a host that has a single
  input, the lookup in line 234 raises at the second item and the run ends with that
  error after one upload.
\<close>

theorem C1_continue_mode_returns_no_error_record:
  "(\<forall>h n sent returned.
      execute n h = (sent, Returned returned) \<longrightarrow> list_all (\<lambda>r. error r = None) returned)
   \<and> (\<forall>n. snd (execute n (example_host Create True three_items upload_server)) = OutOfFuel)
   \<and> execute 3 (example_host Create True three_items upload_server)
       = ([upload_request, upload_request], OutOfFuel)
   \<and> execute 3 (single_input_host Create True three_items upload_server)
       = ([upload_request], Raised TypeError)"
proof -
  let ?h = "example_host Create True three_items upload_server"
  have "create_fails ?h (getInputData ?h) 1"
    by (simp add: create_fails_def example_host_def three_items_def item_without_file_def)
  moreover have "\<exists>j. first_json (getInputData_at ?h i) = Inr j" for i
    by (simp add: first_json_def example_host_def three_items_def)
  ultimately have "snd (execute n ?h) = OutOfFuel" for n
    by (intro create_run_diverges [where c = example_credentials and k = 1])
       (simp_all add: example_host_def)
  moreover have "execute 3 ?h = ([upload_request, upload_request], OutOfFuel)"
    by (simp add: run_defs example_defs eval_nat_numeral)
  moreover have "execute 3 (single_input_host Create True three_items upload_server)
                   = ([upload_request], Raised TypeError)"
    by (simp add: run_defs example_defs eval_nat_numeral)
  ultimately show ?thesis using execute_no_error by blast
qed

theorem C1_continue_mode_returns_no_error_record_witness:
  "execute 2 (example_host Create True [item_with_file] upload_server)
     = ([upload_request], Returned [out_json (JObj [(''task_id'', JStr ''task-1'')])])
   \<and> list_all (\<lambda>r. error r = None) [out_json (JObj [(''task_id'', JStr ''task-1'')])]"
proof -
  have run: "execute 2 (example_host Create True [item_with_file] upload_server)
               = ([upload_request], Returned [out_json (JObj [(''task_id'', JStr ''task-1'')])])"
    by (simp add: run_defs example_defs eval_nat_numeral)
  with C1_continue_mode_returns_no_error_record show ?thesis by blast
qed

lemma create_never_out_of_fuel:
  "snd (execute_item n h c Document Create i items sent) \<noteq> OutOfFuel"
  by (auto simp: execute_item_def document_create_def requestWithAuthentication_def
       split: sum.splits option.splits prod.splits)

lemma create_loop_never_returns:
  assumes cont: "continueOnFail h"
  shows "\<exists>k. i \<le> k \<and> create_fails h items k \<Longrightarrow>
         snd (execute_loop n h c Document Create i items rd sent) \<noteq> Returned returned"
proof (induction n arbitrary: i items rd sent)
  case 0
  then show ?case by (auto simp: create_fails_def)
next
  case (Suc n)
  from Suc.prems obtain k where k: "i \<le> k" "create_fails h items k" by blast
  then have lt: "i < length items" by (simp add: create_fails_def)
  obtain sent' r where step: "execute_item (Suc n) h c Document Create i items sent = (sent', r)"
    by (cases "execute_item (Suc n) h c Document Create i items sent")
  show ?case
  proof (cases r)
    case (Returned new)
    have "k \<noteq> i"
      using create_fails_raises [OF k(2), of "Suc n" c sent] step Returned by auto
    with k have "\<exists>k. Suc i \<le> k \<and> create_fails h items k"
      by (intro exI [of _ k]) simp
    from Suc.IH [OF this] show ?thesis using lt step Returned by simp
  next
    case (Raised e)
    show ?thesis
    proof (cases "first_json (getInputData_at h i)")
      case (Inl e')
      then show ?thesis using lt step Raised cont by simp
    next
      case (Inr j)
      let ?x = "\<lparr>json = j, binary = None, error = Some e, pairedItem = Some i\<rparr>"
      have "create_fails h (items @ [?x]) (length items)"
        by (rule create_fails_pushed) simp
      with lt have "\<exists>k. Suc i \<le> k \<and> create_fails h (items @ [?x]) k"
        by (intro exI [of _ "length items"]) simp
      from Suc.IH [OF this] show ?thesis using lt step Raised cont Inr by simp
    qed
  next
    case OutOfFuel
    then show ?thesis using lt step by simp
  qed
qed

lemma create_loop_ends_at_failed_lookup:
  assumes cont: "continueOnFail h"
    and lookup: "\<And>i. 0 < i \<Longrightarrow> \<exists>e. first_json (getInputData_at h i) = Inl e"
  shows "0 < i \<Longrightarrow> i \<le> k \<Longrightarrow> create_fails h items k \<Longrightarrow> k - i < n \<Longrightarrow>
         \<exists>sent' e j. execute_loop n h c Document Create i items rd sent = (sent', Raised e)
                     \<and> first_json (getInputData_at h j) = Inl e"
proof (induction n arbitrary: i rd sent)
  case 0
  then show ?case by simp
next
  case (Suc n)
  from Suc.prems have lt: "i < length items" by (simp add: create_fails_def)
  obtain sent' r where step: "execute_item (Suc n) h c Document Create i items sent = (sent', r)"
    by (cases "execute_item (Suc n) h c Document Create i items sent")
  show ?case
  proof (cases r)
    case (Returned new)
    have "k \<noteq> i"
      using create_fails_raises [OF Suc.prems(3), of "Suc n" c sent] step Returned by auto
    with Suc.prems have "0 < Suc i" "Suc i \<le> k" "k - Suc i < n" by simp_all
    from Suc.IH [OF this(1,2) Suc.prems(3) this(3)]
    show ?thesis using lt step Returned by simp
  next
    case (Raised e)
    from lookup [OF Suc.prems(1)] obtain e' where "first_json (getInputData_at h i) = Inl e'"
      by blast
    then show ?thesis using lt step Raised cont by auto
  next
    case OutOfFuel
    then show ?thesis
      using create_never_out_of_fuel [of "Suc n" h c i items sent] step by simp
  qed
qed

lemma create_run_ends_at_failed_lookup:
  assumes "getCredentials h = Inr c"
    and "param_resource h = Inr Document"
    and "param_operation h = Inr Create"
    and cont: "continueOnFail h"
    and lookup: "\<And>i. 0 < i \<Longrightarrow> \<exists>e. first_json (getInputData_at h i) = Inl e"
    and fails: "create_fails h (getInputData h) k"
    and fuel: "length (getInputData h) < n"
  shows "\<exists>sent e j. execute n h = (sent, Raised e) \<and> first_json (getInputData_at h j) = Inl e"
proof -
  let ?items = "getInputData h"
  from fuel obtain m where n: "n = Suc m" "length ?items \<le> m" by (cases n) auto
  from fails have k: "k < length ?items" by (simp add: create_fails_def)
  then have lt: "0 < length ?items" by linarith
  obtain sent' r where step: "execute_item (Suc m) h c Document Create 0 ?items [] = (sent', r)"
    by (cases "execute_item (Suc m) h c Document Create 0 ?items []")
  have loop: "\<exists>sent e j. execute_loop (Suc m) h c Document Create 0 ?items [] []
                            = (sent, Raised e)
                          \<and> first_json (getInputData_at h j) = Inl e"
  proof (cases r)
    case (Returned new)
    have "k \<noteq> 0"
    proof
      assume "k = 0"
      with create_fails_raises [OF fails, of "Suc m" c "[]"] step Returned
      show False by auto
    qed
    with k n(2) have "0 < Suc 0" "Suc 0 \<le> k" "k - Suc 0 < m" by linarith+
    from create_loop_ends_at_failed_lookup [OF cont lookup this(1,2) fails this(3)]
    show ?thesis using lt step Returned by simp
  next
    case (Raised e)
    show ?thesis
    proof (cases "first_json (getInputData_at h 0)")
      case (Inl e')
      then show ?thesis using lt step Raised cont by auto
    next
      case (Inr j)
      let ?x = "\<lparr>json = j, binary = None, error = Some e, pairedItem = Some 0\<rparr>"
      have pushed: "create_fails h (?items @ [?x]) (length ?items)"
        by (rule create_fails_pushed) simp
      from k n(2) have "0 < Suc 0" "Suc 0 \<le> length ?items" "length ?items - Suc 0 < m"
        by linarith+
      from create_loop_ends_at_failed_lookup [OF cont lookup this(1,2) pushed this(3)]
      show ?thesis using lt step Raised cont Inr by simp
    qed
  next
    case OutOfFuel
    then show ?thesis
      using create_never_out_of_fuel [of "Suc m" h c 0 ?items "[]"] step by simp
  qed
  have "execute n h = execute_loop (Suc m) h c Document Create 0 ?items [] []"
    using assms(1-3) by (simp add: execute_def n(1) del: execute_loop.simps)
  then show ?thesis using loop by (simp only:)
qed

text \<open>
  Claim C10, as stated, fails: a run in continue mode with an item that fails every time
  can end. On a host with a single input, Document / Create on one item without attachment
  appends the error record, fails on it in turn, and then line 234 asks for
  \<^verbatim>\<open>this.getInputData(1)[0]\<close>, which raises; the error leaves the \<^verbatim>\<open>catch\<close> block and
  the run is over.
\<close>

theorem C10_run_ends_on_single_input_host_counterexample:
  "continueOnFail (single_input_host Create True [item_without_file] upload_server)
   \<and> param_operation (single_input_host Create True [item_without_file] upload_server)
       = Inr Create
   \<and> binary (getInputData (single_input_host Create True [item_without_file] upload_server) ! 0)
       = None
   \<and> execute 2 (single_input_host Create True [item_without_file] upload_server)
       = ([], Raised TypeError)
   \<and> execute 7 (single_input_host Create True [item_without_file] upload_server)
       = ([], Raised TypeError)"
  by (simp add: run_defs example_defs eval_nat_numeral)

text \<open>
  Claim C10, amended. In continue mode the record built for a failed item is appended to
  \<^verbatim>\<open>items\<close>, the list the loop runs over, and \<^verbatim>\<open>returnData\<close> is left as it is; the
  next iteration compares the index with the length of the extended list, so the appended
  record is processed as one more input item. For Document / Create with an item that has
  no attachment under the configured name, every appended record fails in turn (it has no
  attachment at all), so the run never returns. It goes on for as long as the lookup
  \<^verbatim>\<open>this.getInputData(itemIndex)[0]\<close> of line 234 succeeds: for ever when it succeeds at
  every index. When the lookup fails at every index but 0, as on a host with a single
  input, the run ends with the error of that lookup, after at most one iteration per input
  item and one more.
\<close>

theorem C10_continue_mode_appends_to_input_and_never_returns:
  assumes "getCredentials h = Inr c"
    and "param_resource h = Inr Document"
    and "param_operation h = Inr Create"
    and "continueOnFail h"
    and "k < length (getInputData h)"
    and "param_file h k = Inr name"
    and "binary (getInputData h ! k) = None
         \<or> (\<exists>bs. binary (getInputData h ! k) = Some bs \<and> map_of bs name = None)"
  shows "(\<forall>n returned. snd (execute n h) \<noteq> Returned returned)
         \<and> ((\<forall>i. \<exists>x xs. getInputData_at h i = Inr (x # xs))
              \<longrightarrow> (\<forall>n. snd (execute n h) = OutOfFuel))
         \<and> ((\<forall>i. 0 < i \<longrightarrow> (\<exists>e. first_json (getInputData_at h i) = Inl e))
              \<longrightarrow> (\<forall>n. length (getInputData h) < n
                       \<longrightarrow> (\<exists>sent e j. execute n h = (sent, Raised e)
                                       \<and> first_json (getInputData_at h j) = Inl e)))
         \<and> (\<forall>n res op i items returnData sent sent' e x xs.
               i < length items
               \<and> execute_item (Suc n) h c res op i items sent = (sent', Raised e)
               \<and> getInputData_at h i = Inr (x # xs)
               \<longrightarrow> execute_loop (Suc n) h c res op i items returnData sent
                     = execute_loop n h c res op (Suc i)
                         (items @ [\<lparr>json = json x, binary = None, error = Some e,
                                    pairedItem = Some i\<rparr>])
                         returnData sent')"
proof -
  have fails: "create_fails h (getInputData h) k"
    using assms(5-7) by (auto simp: create_fails_def)
  have "snd (execute n h) \<noteq> Returned returned" for n returned
  proof -
    have "\<exists>k. 0 \<le> k \<and> create_fails h (getInputData h) k" using fails by blast
    from create_loop_never_returns [OF assms(4) this]
    show ?thesis using assms(1-3) by (simp add: execute_def)
  qed
  moreover have "snd (execute n h) = OutOfFuel"
    if all: "\<forall>i. \<exists>x xs. getInputData_at h i = Inr (x # xs)" for n
  proof -
    have lookup: "\<exists>j. first_json (getInputData_at h i) = Inr j" for i
    proof -
      from all obtain x xs where "getInputData_at h i = Inr (x # xs)" by blast
      then show ?thesis by (simp add: first_json_def)
    qed
    show ?thesis using assms(1-4) lookup fails by (rule create_run_diverges)
  qed
  moreover have "\<exists>sent e j. execute n h = (sent, Raised e)
                          \<and> first_json (getInputData_at h j) = Inl e"
    if none: "\<forall>i. 0 < i \<longrightarrow> (\<exists>e. first_json (getInputData_at h i) = Inl e)"
      and fuel: "length (getInputData h) < n" for n
  proof -
    from none have lookup: "\<exists>e. first_json (getInputData_at h i) = Inl e" if "0 < i" for i
      using that by blast
    show ?thesis using assms(1-4) lookup fails fuel by (rule create_run_ends_at_failed_lookup)
  qed
  moreover have "execute_loop (Suc n) h c res op i items returnData sent
                   = execute_loop n h c res op (Suc i)
                       (items @ [\<lparr>json = json x, binary = None, error = Some e,
                                  pairedItem = Some i\<rparr>])
                       returnData sent'"
    if "i < length items"
      and "execute_item (Suc n) h c res op i items sent = (sent', Raised e)"
      and "getInputData_at h i = Inr (x # xs)"
    for n res op i items returnData sent sent' e x xs
    using that assms(4) by (simp add: first_json_def)
  ultimately show ?thesis by blast
qed

theorem C10_continue_mode_appends_to_input_and_never_returns_witness:
  "continueOnFail (example_host Create True [item_without_file] upload_server)
   \<and> (\<forall>i. \<exists>x xs. getInputData_at (example_host Create True [item_without_file] upload_server) i
                     = Inr (x # xs))
   \<and> binary (getInputData (example_host Create True [item_without_file] upload_server) ! 0)
       = None
   \<and> snd (execute 7 (example_host Create True [item_without_file] upload_server)) = OutOfFuel
   \<and> execute_item (Suc 1) (example_host Create True [item_without_file] upload_server)
        example_credentials Document Create 0 [item_without_file] []
       = ([], Raised (missing_binary_error 0 ''data''))
   \<and> execute_loop (Suc 1) (example_host Create True [item_without_file] upload_server)
        example_credentials Document Create 0 [item_without_file] [] []
       = execute_loop 1 (example_host Create True [item_without_file] upload_server)
           example_credentials Document Create (Suc 0)
           ([item_without_file]
            @ [\<lparr>json = json item_without_file, binary = None,
                error = Some (missing_binary_error 0 ''data''), pairedItem = Some 0\<rparr>])
           [] []
   \<and> first_json (getInputData_at
                   (single_input_host Create True [item_without_file] upload_server) 1)
       = Inl TypeError
   \<and> length (getInputData (single_input_host Create True [item_without_file] upload_server))
       < 2
   \<and> (\<exists>sent e j.
         execute 2 (single_input_host Create True [item_without_file] upload_server)
           = (sent, Raised e)
         \<and> first_json (getInputData_at
                         (single_input_host Create True [item_without_file] upload_server) j)
             = Inl e)
   \<and> execute 2 (single_input_host Create True [item_without_file] upload_server)
       = ([], Raised TypeError)"
proof -
  let ?h = "example_host Create True [item_without_file] upload_server"
  have 1: "getCredentials ?h = Inr example_credentials" by (simp add: example_host_def)
  have 2: "param_resource ?h = Inr Document" by (simp add: example_host_def)
  have 3: "param_operation ?h = Inr Create" by (simp add: example_host_def)
  have 4: "continueOnFail ?h" by (simp add: example_host_def)
  have 5: "\<forall>i. \<exists>x xs. getInputData_at ?h i = Inr (x # xs)" by (simp add: example_host_def)
  have 6: "0 < length (getInputData ?h)" by (simp add: example_host_def)
  have 7: "param_file ?h 0 = Inr ''data''" by (simp add: example_host_def)
  have 8: "binary (getInputData ?h ! 0) = None"
    by (simp add: example_host_def item_without_file_def)
  then have 9: "binary (getInputData ?h ! 0) = None
      \<or> (\<exists>bs. binary (getInputData ?h ! 0) = Some bs \<and> map_of bs ''data'' = None)" by simp
  have 10: "execute_item (Suc 1) ?h example_credentials Document Create 0 [item_without_file] []
              = ([], Raised (missing_binary_error 0 ''data''))"
    by (simp add: execute_item_def document_create_def assertBinaryData_def example_host_def
          item_without_file_def)
  have 11: "getInputData_at ?h 0 = Inr (item_without_file # [])" by (simp add: example_host_def)
  note inst = C10_continue_mode_appends_to_input_and_never_returns [OF 1 2 3 4 6 7 9]
  from inst 5 have a: "snd (execute 7 ?h) = OutOfFuel" by blast
  from inst 10 11 have b:
    "execute_loop (Suc 1) ?h example_credentials Document Create 0 [item_without_file] [] []
       = execute_loop 1 ?h example_credentials Document Create (Suc 0)
           ([item_without_file]
            @ [\<lparr>json = json item_without_file, binary = None,
                error = Some (missing_binary_error 0 ''data''), pairedItem = Some 0\<rparr>])
           [] []"
    by (metis length_Cons less_Suc_eq_0_disj)
  let ?g = "single_input_host Create True [item_without_file] upload_server"
  have g1: "getCredentials ?g = Inr example_credentials"
    by (simp add: single_input_host_def example_host_def)
  have g2: "param_resource ?g = Inr Document"
    by (simp add: single_input_host_def example_host_def)
  have g3: "param_operation ?g = Inr Create"
    by (simp add: single_input_host_def example_host_def)
  have g4: "continueOnFail ?g" by (simp add: single_input_host_def example_host_def)
  have g6: "0 < length (getInputData ?g)" by (simp add: single_input_host_def example_host_def)
  have g7: "param_file ?g 0 = Inr ''data''" by (simp add: single_input_host_def example_host_def)
  have "binary (getInputData ?g ! 0) = None"
    by (simp add: single_input_host_def example_host_def item_without_file_def)
  then have g9: "binary (getInputData ?g ! 0) = None
      \<or> (\<exists>bs. binary (getInputData ?g ! 0) = Some bs \<and> map_of bs ''data'' = None)" by simp
  have g10: "\<forall>i. 0 < i \<longrightarrow> (\<exists>e. first_json (getInputData_at ?g i) = Inl e)"
    by (simp add: single_input_host_def example_host_def first_json_def)
  have g11: "first_json (getInputData_at ?g 1) = Inl TypeError"
    by (simp add: single_input_host_def example_host_def first_json_def)
  have g12: "length (getInputData ?g) < 2" by (simp add: single_input_host_def example_host_def)
  note ginst = C10_continue_mode_appends_to_input_and_never_returns [OF g1 g2 g3 g4 g6 g7 g9]
  from ginst g10 g12 have c:
    "\<exists>sent e j. execute 2 ?g = (sent, Raised e) \<and> first_json (getInputData_at ?g j) = Inl e"
    by blast
  have d: "execute 2 ?g = ([], Raised TypeError)"
    by (simp add: run_defs example_defs eval_nat_numeral)
  show ?thesis using 4 5 8 a 10 b g11 g12 c d by blast
qed

section \<open>Pagination\<close>








lemma paginated_diverges:
  assumes "\<And>sent r. \<exists>body u. http h sent r = Inr body \<and> field ''next'' body = Some (JStr u)"
  shows "\<exists>reqs. requestWithAuthenticationPaginated n h c sent r = (sent @ reqs, OutOfFuel)
               \<and> length reqs = n"
proof (induction n arbitrary: sent r)
  case 0
  then show ?case by simp
next
  case (Suc n)
  let ?r = "apply_authentication c r"
  obtain body u where b: "http h sent ?r = Inr body" "field ''next'' body = Some (JStr u)"
    using assms by blast
  obtain reqs where
    IH: "requestWithAuthenticationPaginated n h c (sent @ [?r]) (follow_up r u)
           = ((sent @ [?r]) @ reqs, OutOfFuel)" "length reqs = n"
    using Suc.IH by blast
  show ?case
    using b IH
    by (intro exI [of _ "?r # reqs"])
       (simp add: requestWithAuthentication_def pagination_continue_def pagination_url_def)
qed

lemma paginated_returns_null:
  "requestWithAuthenticationPaginated n h c sent r = (sent', Returned bodies) \<Longrightarrow>
   bodies \<noteq> [] \<and> field ''next'' (last bodies) = Some JNull"
proof (induction n arbitrary: sent r sent' bodies)
  case 0
  then show ?case by simp
next
  case (Suc n)
  then show ?case
    by (auto simp: requestWithAuthentication_def pagination_continue_def pagination_url_def
         split: sum.splits if_splits option.splits json.splits prod.splits outcome.splits)
qed

text \<open>
  Claim C9. The pagination of a read has no bound of its own. Against a server whose every
  response has a \<^verbatim>\<open>next\<close> URL, the read of an item is never done: granted \<open>n\<close>
  requests, it has sent \<open>n\<close> requests and wants another. And whenever a pagination is
  done, the last response it received had \<^verbatim>\<open>next\<close> null.
\<close>

theorem C9_pagination_has_no_bound:
  assumes "param_additionalFields h i = Inr af"
    and "\<forall>sent r. \<exists>body u. http h sent r = Inr body \<and> field ''next'' body = Some (JStr u)"
  shows "(\<exists>reqs. execute_item n h c Document Read i items sent = (sent @ reqs, OutOfFuel)
                 \<and> length reqs = n)
         \<and> (\<forall>h' m s r s' bodies.
               requestWithAuthenticationPaginated m h' c s r = (s', Returned bodies)
               \<longrightarrow> bodies \<noteq> [] \<and> field ''next'' (last bodies) = Some JNull)"
proof -
  from assms(2) have "\<exists>body u. http h sent r = Inr body \<and> field ''next'' body = Some (JStr u)"
    for sent r by blast
  from paginated_diverges [OF this, where n = n and c = c and sent = sent and r = "read_request c af"]
  obtain reqs where
    "requestWithAuthenticationPaginated n h c sent (read_request c af) = (sent @ reqs, OutOfFuel)"
    "length reqs = n"
    by blast
  then have "\<exists>reqs. execute_item n h c Document Read i items sent = (sent @ reqs, OutOfFuel)
                   \<and> length reqs = n"
    using assms(1) by (intro exI [of _ reqs]) (simp add: execute_item_def document_read_def)
  then show ?thesis using paginated_returns_null by blast
qed

theorem C9_pagination_has_no_bound_witness:
  "(\<forall>sent r. \<exists>body u. http (example_host Read False [item_without_file] endless_server) sent r
                        = Inr body \<and> field ''next'' body = Some (JStr u))
   \<and> (\<exists>reqs. execute_item 5 (example_host Read False [item_without_file] endless_server)
               example_credentials Document Read 0 [item_without_file] [] = (reqs, OutOfFuel)
             \<and> length reqs = 5)
   \<and> requestWithAuthenticationPaginated 2
        (example_host Read False [item_without_file] two_page_server) example_credentials []
        (read_request example_credentials \<lparr>search = Some ''invoice''\<rparr>)
       = (page_requests example_credentials
            (read_request example_credentials \<lparr>search = Some ''invoice''\<rparr>)
            [''https://dms.example/api/documents/?page=2''],
          Returned [page_one, page_two])
   \<and> field ''next'' (last [page_one, page_two]) = Some JNull"
proof -
  let ?h = "example_host Read False [item_without_file] endless_server"
  let ?af = "\<lparr>search = Some ''invoice''\<rparr>"
  have 1: "param_additionalFields ?h 0 = Inr ?af" by (simp add: example_host_def)
  have 2: "\<forall>sent r. \<exists>body u. http ?h sent r = Inr body \<and> field ''next'' body = Some (JStr u)"
    by (simp add: example_host_def endless_server_def page_one_def)
  note inst = C9_pagination_has_no_bound [OF 1 2, where n = 5 and c = example_credentials
      and items = "[item_without_file]" and sent = "[]"]
  have run: "requestWithAuthenticationPaginated 2
        (example_host Read False [item_without_file] two_page_server) example_credentials []
        (read_request example_credentials ?af)
       = (page_requests example_credentials (read_request example_credentials ?af)
            [''https://dms.example/api/documents/?page=2''],
          Returned [page_one, page_two])"
    by (simp add: run_defs example_defs page_requests_def eval_nat_numeral)
  from inst run have "[page_one, page_two] \<noteq> []
      \<and> field ''next'' (last [page_one, page_two]) = Some JNull"
    by blast
  with inst 2 run show ?thesis by simp
qed






section \<open>Authentication\<close>

lemma set_header_filter:
  "P k \<Longrightarrow> filter (\<lambda>(k', v). P k') hs = [] \<Longrightarrow>
   filter (\<lambda>(k', v). P k') (set_header k v hs) = [(k, v)]"
  by (induction hs) (auto split: if_splits)

lemma lower_Authorization: "map lower_char ''Authorization'' = ''authorization''"
  by (simp add: lower_char_def)

lemma lower_Accept: "map lower_char ''Accept'' \<noteq> ''authorization''"
  by (simp add: lower_char_def)

lemma authenticated_apply:
  "authorization_headers r = [] \<Longrightarrow> authenticated c (apply_authentication c r)"
  unfolding authenticated_def authorization_headers_def apply_authentication_def
    authenticate_def
  using set_header_filter [where P = "\<lambda>k. map lower_char k = ''authorization''"
      and k = "''Authorization''", OF lower_Authorization]
  by simp

lemma no_auth_follow_up: "authorization_headers (follow_up r u) = authorization_headers r"
  by (simp add: authorization_headers_def follow_up_def)

lemma no_auth_read: "authorization_headers (read_request c af) = []"
  by (simp add: authorization_headers_def read_request_def lower_Accept)

lemma no_auth_create: "authorization_headers (create_request c b p) = []"
  by (simp add: authorization_headers_def create_request_def)

lemma no_auth_test: "authorization_headers (test_request c) = []"
  by (simp add: authorization_headers_def test_request_def)

lemma sent_paginated:
  "requestWithAuthenticationPaginated n h c sent r = (sent', res) \<Longrightarrow>
   authorization_headers r = [] \<Longrightarrow> list_all (authenticated c) sent \<Longrightarrow>
   list_all (authenticated c) sent'"
proof (induction n arbitrary: sent r sent' res)
  case 0
  then show ?case by simp
next
  case (Suc n)
  have step: "list_all (authenticated c) (sent @ [apply_authentication c r])"
    using Suc.prems by (simp add: authenticated_apply)
  have rec: "list_all (authenticated c) s"
    if "requestWithAuthenticationPaginated n h c (sent @ [apply_authentication c r])
          (follow_up r u) = (s, x)"
    for u s x
    using Suc.IH [OF that _ step] Suc.prems(2) by (simp add: no_auth_follow_up)
  show ?case using Suc.prems(1) step rec
    by (auto simp: requestWithAuthentication_def Let_def
         split: sum.splits option.splits json.splits prod.splits outcome.splits if_splits)
qed

lemma sent_document_read:
  "document_read n h c i sent = (sent', res) \<Longrightarrow> list_all (authenticated c) sent \<Longrightarrow>
   list_all (authenticated c) sent'"
  by (auto simp: document_read_def split: sum.splits prod.splits outcome.splits
       dest: sent_paginated [OF _ no_auth_read])

lemma sent_document_create:
  "document_create h c i items sent = (sent', res) \<Longrightarrow> list_all (authenticated c) sent \<Longrightarrow>
   list_all (authenticated c) sent'"
  by (auto simp: document_create_def requestWithAuthentication_def Let_def
         authenticated_apply [OF no_auth_create]
       split: sum.splits prod.splits)

lemma sent_execute_item:
  "execute_item n h c res op i items sent = (sent', r) \<Longrightarrow>
   list_all (authenticated c) sent \<Longrightarrow> list_all (authenticated c) sent'"
  by (auto simp: execute_item_def split: if_splits
       dest: sent_document_read sent_document_create)

lemma sent_execute_loop:
  "execute_loop n h c res op i items rd sent = (sent', r) \<Longrightarrow>
   list_all (authenticated c) sent \<Longrightarrow> list_all (authenticated c) sent'"
proof (induction n arbitrary: i items rd sent)
  case 0
  then show ?case by (auto split: if_splits)
next
  case (Suc n)
  obtain s x where step: "execute_item (Suc n) h c res op i items sent = (s, x)"
    by (cases "execute_item (Suc n) h c res op i items sent")
  have s: "list_all (authenticated c) s"
    using sent_execute_item [OF step Suc.prems(2)] .
  show ?case using Suc.prems step s Suc.IH [OF _ s]
    by (auto split: outcome.splits sum.splits if_splits)
qed

text \<open>
  Claim C6. Every request that a run of the node sends (the page requests of a read and
  the upload of a create) and the credential test request carry exactly one authorization
  header, whatever the letter case of header names, and it is
  \<open>Authorization: Token <token>\<close> with the token of the credentials.
\<close>

theorem C6_every_request_carries_the_token_once:
  assumes "getCredentials h = Inr c"
  shows "(\<forall>r \<in> set (fst (execute n h)).
            authorization_headers r = [(''Authorization'', ''Token '' @ token c)])
         \<and> authorization_headers (apply_authentication c (test_request c))
             = [(''Authorization'', ''Token '' @ token c)]"
proof -
  have "list_all (authenticated c) (fst (execute n h))"
  proof (cases "execute n h")
    case (Pair s x)
    then show ?thesis using assms
      by (auto simp: execute_def split: sum.splits dest: sent_execute_loop)
  qed
  moreover have "authenticated c (apply_authentication c (test_request c))"
    by (rule authenticated_apply [OF no_auth_test])
  ultimately show ?thesis by (simp add: list_all_iff authenticated_def)
qed

theorem C6_every_request_carries_the_token_once_witness:
  "getCredentials (example_host Read False [item_without_file] two_page_server)
     = Inr example_credentials
   \<and> map authorization_headers
         (fst (execute 2 (example_host Read False [item_without_file] two_page_server)))
       = [[(''Authorization'', ''Token abc123'')], [(''Authorization'', ''Token abc123'')]]
   \<and> authorization_headers (apply_authentication example_credentials
                               (test_request example_credentials))
       = [(''Authorization'', ''Token abc123'')]"
proof -
  let ?h = "example_host Read False [item_without_file] two_page_server"
  let ?v = "[(''Authorization'', ''Token abc123'')]"
  have 1: "getCredentials ?h = Inr example_credentials" by (simp add: example_host_def)
  have 2: "length (fst (execute 2 ?h)) = 2"
    by (simp add: run_defs example_defs eval_nat_numeral)
  have 3: "token example_credentials = ''abc123''" by (simp add: example_credentials_def)
  note inst = C6_every_request_carries_the_token_once [OF 1, where n = 2, unfolded 3]
  from inst have "map authorization_headers (fst (execute 2 ?h))
                    = map (\<lambda>r. ?v) (fst (execute 2 ?h))"
    by (intro map_cong) simp_all
  also have "\<dots> = replicate 2 ?v" using 2 by (simp add: map_replicate_const)
  finally have "map authorization_headers (fst (execute 2 ?h)) = [?v, ?v]"
    by (simp add: eval_nat_numeral)
  with inst 1 show ?thesis by simp
qed

end
